theory Spec2Isabelle
  imports Main
begin

section \<open>Strings\<close>

text \<open>
  The transcript of a message is trimmed with \<^verbatim>\<open>String.prototype.trim\<close>, which removes
  white space and line terminators from both ends of the string. A string is a
  \<^typ>\<open>string\<close>; the white-space characters are the ones of ECMAScript that fit a
  \<^typ>\<open>char\<close>: TAB, LF, VT, FF, CR, SP and NBSP.
\<close>

definition isWhiteSpace :: "char \<Rightarrow> bool" where
  "isWhiteSpace c \<longleftrightarrow>
     c \<in> set [CHR 0x09, CHR 0x0A, CHR 0x0B, CHR 0x0C, CHR 0x0D, CHR 0x20, CHR 0xA0]"

definition trim :: "string \<Rightarrow> string" where
  "trim s = rev (dropWhile isWhiteSpace (rev (dropWhile isWhiteSpace s)))"

text \<open>\<^verbatim>\<open>xs.join(sep)\<close> on an array of strings.\<close>

fun join :: "string \<Rightarrow> string list \<Rightarrow> string" where
  "join sep [] = []"
| "join sep [x] = x"
| "join sep (x # y # ys) = x @ sep @ join sep (y # ys)"

text \<open>
  A value that may be \<^verbatim>\<open>undefined\<close> is an option. \<open>orEmpty\<close> is \<^verbatim>\<open>v ?? ""\<close>,
  \<open>interpolate\<close> is what a template literal prints for it, and \<open>truthyStr\<close> is the
  truth value JavaScript gives it in a condition.
\<close>

definition orEmpty :: "string option \<Rightarrow> string" where
  "orEmpty v = (case v of None \<Rightarrow> [] | Some x \<Rightarrow> x)"

definition interpolate :: "string option \<Rightarrow> string" where
  "interpolate v = (case v of None \<Rightarrow> ''undefined'' | Some x \<Rightarrow> x)"

definition truthyStr :: "string option \<Rightarrow> bool" where
  "truthyStr v = (case v of None \<Rightarrow> False | Some x \<Rightarrow> x \<noteq> [])"

section \<open>Data of the Agent component\<close>

datatype CallStatus = INACTIVE | CONNECTING | ACTIVE | FINISHED

datatype role = User | System | Assistant

record SavedMessage =
  role :: role
  content :: string

text \<open>The message shape expected from the SDK's events: every field is optional.\<close>

record VapiMessage =
  msg_type :: "string option"
  transcriptType :: "string option"
  transcript :: "string option"
  msg_role :: "role option"

datatype agent_type = Generate | Feedback

record AgentProps =
  userName :: "string option"
  userId :: "string option"
  interviewId :: "string option"
  feedbackId :: "string option"
  agentType :: "agent_type option"
  questions :: "string list option"

text \<open>The four \<^verbatim>\<open>useState\<close> cells of the component and their initial values.\<close>

record agent_state =
  callStatus :: CallStatus
  messages :: "SavedMessage list"
  isSpeaking :: bool
  lastMessage :: string

definition initialState :: agent_state where
  "initialState =
     \<lparr>callStatus = INACTIVE, messages = [], isSpeaking = False, lastMessage = []\<rparr>"

section \<open>The world outside the component\<close>

text \<open>
  \<open>interviewer\<close> is a constant imported from \<^verbatim>\<open>@/constants\<close>, and the work-flow id is
  read from the build environment; both are parameters here. The value chosen by
  \<^verbatim>\<open>handleCall\<close> is tested for truthiness only, so three shapes are told apart:
  a missing value, a string, and an assistant object.
\<close>

datatype flow = FlowUndefined | FlowString string | FlowAssistant

fun truthyFlow :: "flow \<Rightarrow> bool" where
  "truthyFlow FlowUndefined = False"
| "truthyFlow (FlowString x) = (x \<noteq> [])"
| "truthyFlow FlowAssistant = True"

record environment =
  NEXT_PUBLIC_VAPI_WORKFLOW_ID :: "string option"
  interviewer :: flow

definition WORKFLOW_ID :: "environment \<Rightarrow> string" where
  "WORKFLOW_ID env = orEmpty (NEXT_PUBLIC_VAPI_WORKFLOW_ID env)"

text \<open>
  What an error value looks like to the two handlers that inspect it: a falsy value, a
  \<^verbatim>\<open>Response\<close>, an object whose \<^verbatim>\<open>error\<close> field is a \<^verbatim>\<open>Response\<close>, or anything else.
  Reading the body of a \<^verbatim>\<open>Response\<close> settles: it yields its text or fails. So do
  the awaited start of a call and the feedback action; stopping a call returns or throws.
\<close>

datatype body = BodyText string | BodyFails

datatype thrown = Falsy | IsResponse body | NestedResponse body | OtherValue

datatype start_outcome = StartResolves | StartThrows thrown

datatype stop_outcome = StopReturns | StopThrows

datatype feedback_outcome = FeedbackResolves bool "string option" | FeedbackRejects

text \<open>
  Everything the component does to the outside: console output, calls of the SDK, of the
  router and of the \<^verbatim>\<open>createFeedback\<close> action (with the fields \<^verbatim>\<open>interviewId\<close>,
  \<^verbatim>\<open>userId\<close>, \<^verbatim>\<open>transcript\<close> and \<^verbatim>\<open>feedbackId\<close> of its argument).
\<close>

datatype effect =
    ConsoleLog string
  | ConsoleError string
  | ConsoleErrorText string string
  | VapiStart flow "(string \<times> string) list"
  | VapiStop
  | RouterPush string
  | CreateFeedback "string option" "string option" "SavedMessage list" "string option"

section \<open>The event handlers\<close>

definition onCallStart :: "agent_state \<Rightarrow> agent_state \<times> effect list" where
  "onCallStart s = (s\<lparr>callStatus := ACTIVE\<rparr>, [])"

definition onCallEnd :: "agent_state \<Rightarrow> agent_state \<times> effect list" where
  "onCallEnd s = (s\<lparr>callStatus := FINISHED\<rparr>, [])"

text \<open>The guard of \<^verbatim>\<open>onMessage\<close>: a final transcript that carries a string.\<close>

definition isFinalTranscript :: "VapiMessage \<Rightarrow> bool" where
  "isFinalTranscript m \<longleftrightarrow>
     msg_type m = Some ''transcript'' \<and> transcriptType m = Some ''final'' \<and> transcript m \<noteq> None"

text \<open>
  \<^verbatim>\<open>prev[prev.length - 1]?.content?.trim()\<close>: undefined on an empty buffer.
\<close>

definition lastTrimmed :: "SavedMessage list \<Rightarrow> string option" where
  "lastTrimmed prev = (if prev = [] then None else Some (trim (content (last prev))))"

text \<open>
  The updater passed to \<^verbatim>\<open>setMessages\<close>. The test \<^verbatim>\<open>last && last === trimmed\<close> needs
  \<^verbatim>\<open>last\<close> to be truthy, that is defined and not the empty string.
\<close>

definition appendUnique :: "role option \<Rightarrow> string \<Rightarrow> SavedMessage list \<Rightarrow> SavedMessage list" where
  "appendUnique r trimmed prev =
     (if truthyStr (lastTrimmed prev) \<and> lastTrimmed prev = Some trimmed then prev
      else prev @ [\<lparr>role = (case r of None \<Rightarrow> Assistant | Some x \<Rightarrow> x), content = trimmed\<rparr>])"

definition onMessage :: "VapiMessage \<Rightarrow> agent_state \<Rightarrow> agent_state \<times> effect list" where
  "onMessage m s =
     (if isFinalTranscript m
      then (case transcript m of
              None \<Rightarrow> (s, [])
            | Some t \<Rightarrow> (s\<lparr>messages := appendUnique (msg_role m) (trim t) (messages s)\<rparr>, []))
      else (s, []))"

definition onSpeechStart :: "agent_state \<Rightarrow> agent_state \<times> effect list" where
  "onSpeechStart s = (s\<lparr>isSpeaking := True\<rparr>, [ConsoleLog ''speech start''])"

definition onSpeechEnd :: "agent_state \<Rightarrow> agent_state \<times> effect list" where
  "onSpeechEnd s = (s\<lparr>isSpeaking := False\<rparr>, [ConsoleLog ''speech end''])"

text \<open>
  The \<^verbatim>\<open>try\<close> block shared in shape by \<^verbatim>\<open>onError\<close> and the \<^verbatim>\<open>catch\<close> of
  \<^verbatim>\<open>handleCall\<close>: the body of a response is printed under one of two labels, and a
  failure to read it under a third.
\<close>

fun readBody :: "string \<Rightarrow> string \<Rightarrow> string \<Rightarrow> thrown \<Rightarrow> effect list" where
  "readBody direct nested failed Falsy = []"
| "readBody direct nested failed (IsResponse (BodyText t)) = [ConsoleErrorText direct t]"
| "readBody direct nested failed (IsResponse BodyFails) = [ConsoleError failed]"
| "readBody direct nested failed (NestedResponse (BodyText t)) = [ConsoleErrorText nested t]"
| "readBody direct nested failed (NestedResponse BodyFails) = [ConsoleError failed]"
| "readBody direct nested failed OtherValue = []"

definition onError :: "thrown \<Rightarrow> agent_state \<Rightarrow> agent_state \<times> effect list" where
  "onError e s =
     (s\<lparr>callStatus := INACTIVE\<rparr>,
      ConsoleError ''Vapi error event:'' #
      readBody ''Vapi response body:'' ''Vapi response body (nested):''
        ''Error reading Vapi error body:'' e)"

section \<open>The wiring of the handlers to the SDK\<close>

text \<open>
  The first \<^verbatim>\<open>useEffect\<close> registers the handlers with \<^verbatim>\<open>vapi.on\<close>, in this order, and
  its clean-up removes them with \<^verbatim>\<open>vapi.off\<close>.
\<close>

datatype listener = OnCallStart | OnCallEnd | OnMessage | OnSpeechStart | OnSpeechEnd | OnError

definition vapi_on :: "(string \<times> listener) list" where
  "vapi_on =
     [(''call-start'', OnCallStart), (''call-end'', OnCallEnd), (''message'', OnMessage),
      (''speech-start'', OnSpeechStart), (''speech-end'', OnSpeechEnd), (''error'', OnError)]"

definition vapi_off :: "(string \<times> listener) list" where
  "vapi_off =
     [(''call-start'', OnCallStart), (''call-end'', OnCallEnd), (''message'', OnMessage),
      (''speech-start'', OnSpeechStart), (''speech-end'', OnSpeechEnd), (''error'', OnError)]"

text \<open>
  What the SDK passes to a listener. A listener for messages that is handed no message
  reads \<^verbatim>\<open>message?.type\<close> as undefined and does nothing; a listener for errors that is
  handed no error sees a falsy value.
\<close>

datatype payload = NoPayload | MessagePayload VapiMessage | ErrorPayload thrown

fun invoke :: "listener \<Rightarrow> payload \<Rightarrow> agent_state \<Rightarrow> agent_state \<times> effect list" where
  "invoke OnCallStart p s = onCallStart s"
| "invoke OnCallEnd p s = onCallEnd s"
| "invoke OnMessage (MessagePayload m) s = onMessage m s"
| "invoke OnMessage p s = (s, [])"
| "invoke OnSpeechStart p s = onSpeechStart s"
| "invoke OnSpeechEnd p s = onSpeechEnd s"
| "invoke OnError (ErrorPayload e) s = onError e s"
| "invoke OnError NoPayload s = onError Falsy s"
| "invoke OnError (MessagePayload m) s = onError OtherValue s"

fun deliver :: "listener list \<Rightarrow> payload \<Rightarrow> agent_state \<Rightarrow> agent_state \<times> effect list" where
  "deliver [] p s = (s, [])"
| "deliver (l # ls) p s =
     (case invoke l p s of (s1, e1) \<Rightarrow>
        (case deliver ls p s1 of (s2, e2) \<Rightarrow> (s2, e1 @ e2)))"

definition listenersFor :: "string \<Rightarrow> listener list" where
  "listenersFor name = map snd (filter (\<lambda>r. fst r = name) vapi_on)"

text \<open>The SDK emits an event: every listener registered under its name runs.\<close>

definition emit :: "string \<Rightarrow> payload \<Rightarrow> agent_state \<Rightarrow> agent_state \<times> effect list" where
  "emit name p s = deliver (listenersFor name) p s"

section \<open>The end of a call\<close>

type_synonym feedback_action =
  "string option \<Rightarrow> string option \<Rightarrow> SavedMessage list \<Rightarrow> string option \<Rightarrow> feedback_outcome"

definition handleGenerateFeedback ::
  "AgentProps \<Rightarrow> feedback_action \<Rightarrow> SavedMessage list \<Rightarrow> effect list" where
  "handleGenerateFeedback props createFeedback msgs =
     CreateFeedback (interviewId props) (userId props) msgs (feedbackId props) #
     (case createFeedback (interviewId props) (userId props) msgs (feedbackId props) of
        FeedbackResolves success fid \<Rightarrow>
          if success \<and> truthyStr fid
          then [RouterPush (''/interview/'' @ interpolate (interviewId props) @ ''/feedback'')]
          else [ConsoleLog ''Error saving feedback'', RouterPush ''/'']
      | FeedbackRejects \<Rightarrow> [ConsoleError ''createFeedback error:'', RouterPush ''/''])"

text \<open>The body of the second \<^verbatim>\<open>useEffect\<close>.\<close>

definition finishedEffect :: "AgentProps \<Rightarrow> feedback_action \<Rightarrow> agent_state \<Rightarrow> effect list" where
  "finishedEffect props createFeedback s =
     (if callStatus s = FINISHED
      then (if agentType props = Some Generate then [RouterPush ''/'']
            else handleGenerateFeedback props createFeedback (messages s))
      else [])"

section \<open>The two buttons\<close>

definition formattedQuestions :: "AgentProps \<Rightarrow> string" where
  "formattedQuestions props =
     join [CHR 0x0A]
       (map (\<lambda>q. ''- '' @ q) (case questions props of None \<Rightarrow> [] | Some qs \<Rightarrow> qs))"

definition flowId :: "AgentProps \<Rightarrow> environment \<Rightarrow> flow" where
  "flowId props env =
     (if agentType props = Some Generate then FlowString (WORKFLOW_ID env) else interviewer env)"

definition startCall :: "AgentProps \<Rightarrow> environment \<Rightarrow> effect" where
  "startCall props env =
     (if agentType props = Some Generate
      then VapiStart (flowId props env)
             [(''username'', orEmpty (userName props)), (''userid'', orEmpty (userId props))]
      else VapiStart (flowId props env) [(''questions'', formattedQuestions props)])"

text \<open>
  \<^verbatim>\<open>handleCall\<close>, with the outcome of the awaited \<^verbatim>\<open>vapi.start\<close> as a parameter.
\<close>

definition handleCall ::
  "AgentProps \<Rightarrow> environment \<Rightarrow> start_outcome \<Rightarrow> agent_state \<Rightarrow> agent_state \<times> effect list" where
  "handleCall props env outcome s =
     (let s1 = s\<lparr>callStatus := CONNECTING\<rparr> in
      if \<not> truthyFlow (flowId props env)
      then (s1\<lparr>callStatus := INACTIVE\<rparr>,
            [ConsoleError ''No workflow/assistant id provided. Check NEXT_PUBLIC_VAPI_WORKFLOW_ID or interviewer constant.''])
      else (case outcome of
              StartResolves \<Rightarrow> (s1, [startCall props env])
            | StartThrows e \<Rightarrow>
                (s1\<lparr>callStatus := INACTIVE\<rparr>,
                 [startCall props env, ConsoleError ''vapi.start threw:''] @
                 readBody ''Server response:'' ''Server response (nested):''
                   ''Failed reading thrown error body:'' e)))"

definition handleDisconnect :: "stop_outcome \<Rightarrow> agent_state \<Rightarrow> agent_state \<times> effect list" where
  "handleDisconnect outcome s =
     (let s1 = s\<lparr>callStatus := FINISHED\<rparr> in
      case outcome of
        StopReturns \<Rightarrow> (s1, [VapiStop])
      | StopThrows \<Rightarrow> (s1\<lparr>callStatus := INACTIVE\<rparr>, [VapiStop, ConsoleError ''Error stopping vapi:'']))"

section \<open>Sessions\<close>

text \<open>
  An operation of the component is an event emitted by the SDK or a click on one of the
  two buttons. The props, the environment and the feedback action stay fixed during a
  session.
\<close>

datatype operation =
    SdkEvent string payload
  | ClickCall start_outcome
  | ClickDisconnect stop_outcome

record world =
  agentProps :: AgentProps
  buildEnv :: environment
  feedbackAction :: feedback_action

fun handler :: "world \<Rightarrow> operation \<Rightarrow> agent_state \<Rightarrow> agent_state \<times> effect list" where
  "handler w (SdkEvent name p) s = emit name p s"
| "handler w (ClickCall outcome) s = handleCall (agentProps w) (buildEnv w) outcome s"
| "handler w (ClickDisconnect outcome) s = handleDisconnect outcome s"

text \<open>
  After an operation the component renders again, and the second effect runs when one of
  its dependencies has changed; of these only the status and the buffer vary.
\<close>

definition step :: "world \<Rightarrow> operation \<Rightarrow> agent_state \<Rightarrow> agent_state \<times> effect list" where
  "step w op s =
     (case handler w op s of (s', es) \<Rightarrow>
        (s', es @ (if callStatus s' = callStatus s \<and> messages s' = messages s then []
                   else finishedEffect (agentProps w) (feedbackAction w) s')))"

fun run :: "world \<Rightarrow> operation list \<Rightarrow> agent_state \<times> effect list \<Rightarrow> agent_state \<times> effect list" where
  "run w [] acc = acc"
| "run w (op # ops) (s, log) = (case step w op s of (s', es) \<Rightarrow> run w ops (s', log @ es))"

text \<open>
  The call button is rendered while the status is not \<open>ACTIVE\<close>, the end button while
  it is; a session is feasible when every click hits a rendered button.
\<close>

fun offered :: "operation \<Rightarrow> agent_state \<Rightarrow> bool" where
  "offered (SdkEvent name p) s = True"
| "offered (ClickCall outcome) s = (callStatus s \<noteq> ACTIVE)"
| "offered (ClickDisconnect outcome) s = (callStatus s = ACTIVE)"

fun feasible :: "world \<Rightarrow> operation list \<Rightarrow> agent_state \<Rightarrow> bool" where
  "feasible w [] s = True"
| "feasible w (op # ops) s = (offered op s \<and> feasible w ops (fst (step w op s)))"

section \<open>The root layout\<close>

text \<open>
  \<^verbatim>\<open>Layout\<close> awaits \<^verbatim>\<open>isAuthenticated\<close>; \<^verbatim>\<open>redirect\<close> of the framework never returns
  (it throws), so the rest of the function runs for an authenticated user only. The
  answers of the two actions are parameters; the result is the redirect or the rendered
  tree, with the actions called on the way.
\<close>

datatype action = CallIsAuthenticated | CallGetCurrentUser

datatype ('u, 'c) rendered = RootLayout 'u 'c

datatype redirect = Redirect string

definition Layout :: "bool \<Rightarrow> 'u \<Rightarrow> 'c \<Rightarrow> (redirect + ('u, 'c) rendered) \<times> action list" where
  "Layout isUserAuthenticated user children =
     (if \<not> isUserAuthenticated then (Inl (Redirect ''/sign-in''), [CallIsAuthenticated])
      else (Inr (RootLayout user children), [CallIsAuthenticated, CallGetCurrentUser]))"

section \<open>Observations on buffers and effects\<close>

text \<open>
  A buffer has an adjacent duplicate when two neighbouring messages have the same trimmed
  content; the second function asks in addition that this content is not empty.
\<close>

fun adjacentEqual :: "SavedMessage list \<Rightarrow> bool" where
  "adjacentEqual (a # b # rest) =
     (trim (content a) = trim (content b) \<or> adjacentEqual (b # rest))"
| "adjacentEqual rest = False"

fun adjacentEqualNonEmpty :: "SavedMessage list \<Rightarrow> bool" where
  "adjacentEqualNonEmpty (a # b # rest) =
     (trim (content a) = trim (content b) \<and> trim (content b) \<noteq> [] \<or>
      adjacentEqualNonEmpty (b # rest))"
| "adjacentEqualNonEmpty rest = False"

fun isConsole :: "effect \<Rightarrow> bool" where
  "isConsole (ConsoleLog x) = True"
| "isConsole (ConsoleError x) = True"
| "isConsole (ConsoleErrorText x y) = True"
| "isConsole e = False"

text \<open>
  The calls of the feedback action, of the SDK's start and of the router in a list of
  effects, and how many there are of the first two.
\<close>

fun isCreateFeedback :: "effect \<Rightarrow> bool" where
  "isCreateFeedback (CreateFeedback i u t f) = True"
| "isCreateFeedback e = False"

fun isVapiStart :: "effect \<Rightarrow> bool" where
  "isVapiStart (VapiStart f vs) = True"
| "isVapiStart e = False"

fun isRouterPush :: "effect \<Rightarrow> bool" where
  "isRouterPush (RouterPush path) = True"
| "isRouterPush e = False"

definition feedbackCalls :: "effect list \<Rightarrow> nat" where
  "feedbackCalls es = length (filter isCreateFeedback es)"

definition startCalls :: "effect list \<Rightarrow> nat" where
  "startCalls es = length (filter isVapiStart es)"

text \<open>A feedback action that always fails, for concrete sessions.\<close>

definition rejecting :: feedback_action where
  "rejecting i u t f = FeedbackRejects"

text \<open>Concrete props, environment and world of a session, by the mode of the component.\<close>

definition sampleProps :: "agent_type option \<Rightarrow> AgentProps" where
  "sampleProps t =
     \<lparr>userName = Some ''Ann'', userId = Some ''u1'', interviewId = Some ''i1'',
      feedbackId = None, agentType = t, questions = Some [''Why?'']\<rparr>"

definition sampleEnv :: environment where
  "sampleEnv = \<lparr>NEXT_PUBLIC_VAPI_WORKFLOW_ID = Some ''wf-1'', interviewer = FlowAssistant\<rparr>"

definition sampleWorld :: "agent_type option \<Rightarrow> world" where
  "sampleWorld t = \<lparr>agentProps = sampleProps t, buildEnv = sampleEnv, feedbackAction = rejecting\<rparr>"

definition finalTranscript :: "string \<Rightarrow> VapiMessage" where
  "finalTranscript t =
     \<lparr>msg_type = Some ''transcript'', transcriptType = Some ''final'', transcript = Some t,
      msg_role = None\<rparr>"

section \<open>Properties of the component\<close>

subsection \<open>Trimming\<close>

lemma trim_split:
  "s = takeWhile isWhiteSpace s @ trim s @ rev (takeWhile isWhiteSpace (rev (dropWhile isWhiteSpace s)))"
proof -
  let ?d = "dropWhile isWhiteSpace s"
  have "trim s @ rev (takeWhile isWhiteSpace (rev ?d)) =
        rev (takeWhile isWhiteSpace (rev ?d) @ dropWhile isWhiteSpace (rev ?d))"
    unfolding trim_def by (simp only: rev_append)
  also have "\<dots> = ?d"
    by (simp only: takeWhile_dropWhile_id rev_rev_ident)
  finally have "takeWhile isWhiteSpace s @ trim s @ rev (takeWhile isWhiteSpace (rev ?d)) =
                takeWhile isWhiteSpace s @ ?d"
    by simp
  then show ?thesis by (simp only: takeWhile_dropWhile_id)
qed

lemma trim_surrounding:
  "\<exists>pre post. s = pre @ trim s @ post \<and> list_all isWhiteSpace pre \<and> list_all isWhiteSpace post"
proof -
  have "list_all isWhiteSpace (takeWhile isWhiteSpace s)"
    by (simp add: list_all_iff) (meson set_takeWhileD)
  moreover have "list_all isWhiteSpace (rev (takeWhile isWhiteSpace (rev (dropWhile isWhiteSpace s))))"
    by (simp add: list_all_iff) (meson set_takeWhileD)
  ultimately show ?thesis using trim_split by blast
qed

lemma trim_last: "trim s \<noteq> [] \<Longrightarrow> \<not> isWhiteSpace (last (trim s))"
  by (simp add: trim_def last_rev hd_dropWhile)

lemma trim_hd: "trim s \<noteq> [] \<Longrightarrow> \<not> isWhiteSpace (hd (trim s))"
proof -
  assume ne: "trim s \<noteq> []"
  let ?d = "dropWhile isWhiteSpace s"
  have d: "?d = trim s @ rev (takeWhile isWhiteSpace (rev ?d))"
    using trim_split [of s] by (metis same_append_eq takeWhile_dropWhile_id)
  then have "hd ?d = hd (trim s)" using ne by (metis hd_append2)
  moreover have "?d \<noteq> []" using d ne by (metis append_is_Nil_conv)
  ultimately show ?thesis by (metis hd_dropWhile)
qed

lemma trim_idem: "trim (trim s) = trim s"
proof (cases "trim s = []")
  case True
  have "trim [] = []" by (simp add: trim_def)
  with True show ?thesis by simp
next
  case False
  have h: "\<not> isWhiteSpace (hd (trim s))" using False by (rule trim_hd)
  have l: "\<not> isWhiteSpace (last (trim s))" using False by (rule trim_last)
  have "dropWhile isWhiteSpace (trim s) = trim s"
    using False h by (cases "trim s") auto
  moreover have "dropWhile isWhiteSpace (rev (trim s)) = rev (trim s)"
    using False l by (cases "rev (trim s)") (auto simp: last_rev hd_rev)
  ultimately show ?thesis by (simp add: trim_def [of "trim s"])
qed

subsection \<open>The message handler\<close>

lemma onMessage_other: "\<not> isFinalTranscript m \<Longrightarrow> onMessage m s = (s, [])"
  by (simp add: onMessage_def)

lemma onMessage_final:
  "isFinalTranscript m \<Longrightarrow> transcript m = Some t \<Longrightarrow>
   onMessage m s = (s\<lparr>messages := appendUnique (msg_role m) (trim t) (messages s)\<rparr>, [])"
  by (simp add: onMessage_def)

lemma appendUnique_cases:
  "appendUnique r x prev = prev \<or>
   appendUnique r x prev = prev @ [\<lparr>role = (case r of None \<Rightarrow> Assistant | Some y \<Rightarrow> y), content = x\<rparr>]"
  by (simp add: appendUnique_def)

lemma appendUnique_duplicate:
  "prev \<noteq> [] \<Longrightarrow> x \<noteq> [] \<Longrightarrow> trim (content (last prev)) = x \<Longrightarrow> appendUnique r x prev = prev"
  by (simp add: appendUnique_def lastTrimmed_def truthyStr_def)

lemma appendUnique_fresh:
  "prev = [] \<or> trim (content (last prev)) \<noteq> x \<Longrightarrow>
   appendUnique r x prev = prev @ [\<lparr>role = (case r of None \<Rightarrow> Assistant | Some y \<Rightarrow> y), content = x\<rparr>]"
  by (auto simp add: appendUnique_def lastTrimmed_def truthyStr_def)

text \<open>
  Claim C1 (consecutive identical transcript lines are stored once). Evaluated on the
  code: two final transcripts that are both empty arrive one after the other at the
  empty buffer. The test \<^verbatim>\<open>last && last === trimmed\<close> is false for the empty string, so
  the second one is appended as well, and the buffer holds two adjacent messages with the
  same trimmed content.
\<close>

theorem empty_transcript_kept_twice:
  "messages (fst (onMessage
      \<lparr>msg_type = Some ''transcript'', transcriptType = Some ''final'', transcript = Some [], msg_role = None\<rparr>
      (fst (onMessage
        \<lparr>msg_type = Some ''transcript'', transcriptType = Some ''final'', transcript = Some [], msg_role = None\<rparr>
        initialState)))) =
   [\<lparr>role = Assistant, content = []\<rparr>, \<lparr>role = Assistant, content = []\<rparr>] \<and>
   adjacentEqual (messages (fst (onMessage
      \<lparr>msg_type = Some ''transcript'', transcriptType = Some ''final'', transcript = Some [], msg_role = None\<rparr>
      (fst (onMessage
        \<lparr>msg_type = Some ''transcript'', transcriptType = Some ''final'', transcript = Some [], msg_role = None\<rparr>
        initialState)))))"
  by (simp add: onMessage_def isFinalTranscript_def appendUnique_def lastTrimmed_def truthyStr_def
      trim_def initialState_def)

text \<open>
  Claim C8. A message that is not a final transcript carrying a string leaves the state,
  and so the buffer, as it was. Whenever the buffer does change, exactly one message is
  appended: its content is the transcript without its surrounding white space (the
  transcript is white space, then the content, then white space, and the content neither
  starts nor ends with white space), and its role is the role of the event, or
  \<open>Assistant\<close> when the event carries none.
\<close>

theorem onMessage_frame:
  "(\<not> isFinalTranscript m \<longrightarrow> fst (onMessage m s) = s) \<and>
   (messages (fst (onMessage m s)) = messages s \<or>
    (\<exists>t pre post. transcript m = Some t \<and> t = pre @ trim t @ post \<and>
       list_all isWhiteSpace pre \<and> list_all isWhiteSpace post \<and>
       (trim t = [] \<or> \<not> isWhiteSpace (hd (trim t)) \<and> \<not> isWhiteSpace (last (trim t))) \<and>
       messages (fst (onMessage m s)) =
         messages s @ [\<lparr>role = (case msg_role m of None \<Rightarrow> Assistant | Some r \<Rightarrow> r),
                         content = trim t\<rparr>]))"
proof (cases "isFinalTranscript m")
  case False
  then show ?thesis by (simp add: onMessage_other)
next
  case True
  then obtain t where t: "transcript m = Some t"
    by (auto simp: isFinalTranscript_def)
  obtain pre post where pp: "t = pre @ trim t @ post" "list_all isWhiteSpace pre"
      "list_all isWhiteSpace post"
    using trim_surrounding [of t] by blast
  have edge: "trim t = [] \<or> \<not> isWhiteSpace (hd (trim t)) \<and> \<not> isWhiteSpace (last (trim t))"
    using trim_hd [of t] trim_last [of t] by blast
  have m: "messages (fst (onMessage m s)) = appendUnique (msg_role m) (trim t) (messages s)"
    using True t by (simp add: onMessage_final)
  have second: "messages (fst (onMessage m s)) = messages s \<or>
    (\<exists>t pre post. transcript m = Some t \<and> t = pre @ trim t @ post \<and>
       list_all isWhiteSpace pre \<and> list_all isWhiteSpace post \<and>
       (trim t = [] \<or> \<not> isWhiteSpace (hd (trim t)) \<and> \<not> isWhiteSpace (last (trim t))) \<and>
       messages (fst (onMessage m s)) =
         messages s @ [\<lparr>role = (case msg_role m of None \<Rightarrow> Assistant | Some r \<Rightarrow> r),
                         content = trim t\<rparr>])"
  proof (cases "appendUnique (msg_role m) (trim t) (messages s) = messages s")
    case True
    with m show ?thesis by simp
  next
    case False
    with appendUnique_cases [of "msg_role m" "trim t" "messages s"] m
    have "messages (fst (onMessage m s)) =
         messages s @ [\<lparr>role = (case msg_role m of None \<Rightarrow> Assistant | Some r \<Rightarrow> r),
                         content = trim t\<rparr>]"
      by simp
    with t pp edge have "transcript m = Some t \<and> t = pre @ trim t @ post \<and>
       list_all isWhiteSpace pre \<and> list_all isWhiteSpace post \<and>
       (trim t = [] \<or> \<not> isWhiteSpace (hd (trim t)) \<and> \<not> isWhiteSpace (last (trim t))) \<and>
       messages (fst (onMessage m s)) =
         messages s @ [\<lparr>role = (case msg_role m of None \<Rightarrow> Assistant | Some r \<Rightarrow> r),
                         content = trim t\<rparr>]"
      by simp
    then show ?thesis by (intro disjI2 exI)
  qed
  from True second show ?thesis by simp
qed

text \<open>
  The theorem of C8 at a partial transcript, and at a final transcript without a role.
\<close>

theorem onMessage_frame_witness:
  "fst (onMessage \<lparr>msg_type = Some ''transcript'', transcriptType = Some ''partial'',
                   transcript = Some ''hel'', msg_role = Some User\<rparr> initialState) = initialState \<and>
   messages (fst (onMessage \<lparr>msg_type = Some ''transcript'', transcriptType = Some ''final'',
                   transcript = Some '' hello '', msg_role = None\<rparr> initialState)) =
     [\<lparr>role = Assistant, content = ''hello''\<rparr>]"
proof -
  let ?p = "\<lparr>msg_type = Some ''transcript'', transcriptType = Some ''partial'',
                   transcript = Some ''hel'', msg_role = Some User\<rparr>"
  let ?f = "\<lparr>msg_type = Some ''transcript'', transcriptType = Some ''final'',
                   transcript = Some '' hello '', msg_role = None\<rparr>"
  have np: "\<not> isFinalTranscript ?p" by (simp add: isFinalTranscript_def)
  have tr: "trim '' hello '' = ''hello''" by (simp add: trim_def isWhiteSpace_def)
  have ne: "messages (fst (onMessage ?f initialState)) \<noteq> messages initialState"
    by (simp add: onMessage_def isFinalTranscript_def appendUnique_def lastTrimmed_def
        truthyStr_def initialState_def)
  have a: "fst (onMessage ?p initialState) = initialState"
    using onMessage_frame [of ?p initialState, THEN conjunct1] np by simp
  from onMessage_frame [of ?f initialState, THEN conjunct2] ne
  obtain t where t: "transcript ?f = Some t"
    and ms: "messages (fst (onMessage ?f initialState)) =
      messages initialState @
        [\<lparr>role = (case msg_role ?f of None \<Rightarrow> Assistant | Some r \<Rightarrow> r), content = trim t\<rparr>]"
    by blast
  from t have "t = '' hello ''" by simp
  with ms tr have b: "messages (fst (onMessage ?f initialState)) = [\<lparr>role = Assistant, content = ''hello''\<rparr>]"
    by (simp add: initialState_def)
  from a b show ?thesis by (rule conjI)
qed

subsection \<open>The buffer without the empty case\<close>

lemma adjacentEqualNonEmpty_snoc:
  "adjacentEqualNonEmpty (prev @ [m]) \<longleftrightarrow>
     adjacentEqualNonEmpty prev \<or>
     (prev \<noteq> [] \<and> trim (content (last prev)) = trim (content m) \<and> trim (content m) \<noteq> [])"
  by (induction prev rule: adjacentEqualNonEmpty.induct) auto

text \<open>
  With a last content that is not empty the updater does remove the repetition, so a
  buffer never gains two adjacent messages with the same non-empty trimmed content.
\<close>

lemma appendUnique_keeps_invariant:
  "\<not> adjacentEqualNonEmpty prev \<Longrightarrow> \<not> adjacentEqualNonEmpty (appendUnique r (trim t) prev)"
  by (auto simp: appendUnique_def lastTrimmed_def truthyStr_def adjacentEqualNonEmpty_snoc trim_idem)

lemma onMessage_keeps_invariant:
  "\<not> adjacentEqualNonEmpty (messages s) \<Longrightarrow>
   \<not> adjacentEqualNonEmpty (messages (fst (onMessage m s)))"
  by (simp add: onMessage_def appendUnique_keeps_invariant split: option.splits)

subsection \<open>The error handler\<close>

text \<open>
  Claim C6. The error handler sets the status to \<open>INACTIVE\<close> and changes nothing
  else: the buffer, the speaking flag and the last-message cell keep their values, and
  all it does to the outside is console output. It is the handler that runs when the
  SDK emits \<^verbatim>\<open>error\<close>.
\<close>

theorem onError_effect:
  "fst (onError e s) = s\<lparr>callStatus := INACTIVE\<rparr> \<and>
   callStatus (fst (onError e s)) = INACTIVE \<and>
   messages (fst (onError e s)) = messages s \<and>
   isSpeaking (fst (onError e s)) = isSpeaking s \<and>
   lastMessage (fst (onError e s)) = lastMessage s \<and>
   list_all isConsole (snd (onError e s)) \<and>
   emit ''error'' (ErrorPayload e) s = onError e s"
proof -
  have "list_all isConsole (readBody a b c e)" for a b c
    by (induction a b c e rule: readBody.induct) simp_all
  then show ?thesis
    by (simp add: onError_def emit_def listenersFor_def vapi_on_def)
qed

subsection \<open>The layout\<close>

text \<open>
  Claim C10. For a user who is not authenticated the layout redirects to
  \<^verbatim>\<open>/sign-in\<close>: the current user is not fetched and nothing is rendered. An
  authenticated user gets the rendered layout, after the user has been fetched.
\<close>

theorem Layout_unauthenticated:
  "Layout False user children = (Inl (Redirect ''/sign-in''), [CallIsAuthenticated]) \<and>
   CallGetCurrentUser \<notin> set (snd (Layout False user children)) \<and>
   isl (fst (Layout False user children)) \<and>
   Layout True user children = (Inr (RootLayout user children), [CallIsAuthenticated, CallGetCurrentUser])"
  by (simp add: Layout_def)

subsection \<open>Starting a call\<close>

text \<open>
  Claim C9. When the chosen id is empty (mode \<open>Generate\<close> with an empty or unset
  work-flow id, or any other mode with a falsy interviewer constant), \<^verbatim>\<open>handleCall\<close>
  never calls the SDK's start and leaves the status at \<open>INACTIVE\<close>, whatever the
  status was before and whatever the SDK would have answered.
\<close>

theorem handleCall_empty_id:
  assumes "agentType props = Some Generate \<and> WORKFLOW_ID env = [] \<or>
           agentType props \<noteq> Some Generate \<and> \<not> truthyFlow (interviewer env)"
  shows "callStatus (fst (handleCall props env outcome s)) = INACTIVE \<and>
         startCalls (snd (handleCall props env outcome s)) = 0 \<and>
         fst (handleCall props env outcome s) = s\<lparr>callStatus := INACTIVE\<rparr>"
proof -
  from assms have "\<not> truthyFlow (flowId props env)"
    by (auto simp: flowId_def)
  then show ?thesis
    by (simp add: handleCall_def startCalls_def)
qed

text \<open>
  The theorem of C9 in both modes: an unset work-flow id, and an empty interviewer id.
\<close>

theorem handleCall_empty_id_witness:
  "callStatus (fst (handleCall
      \<lparr>userName = Some ''Ann'', userId = Some ''u1'', interviewId = None, feedbackId = None,
        agentType = Some Generate, questions = None\<rparr>
      \<lparr>NEXT_PUBLIC_VAPI_WORKFLOW_ID = None, interviewer = FlowAssistant\<rparr>
      StartResolves initialState)) = INACTIVE \<and>
   startCalls (snd (handleCall
      \<lparr>userName = Some ''Ann'', userId = Some ''u1'', interviewId = None, feedbackId = None,
        agentType = Some Generate, questions = None\<rparr>
      \<lparr>NEXT_PUBLIC_VAPI_WORKFLOW_ID = None, interviewer = FlowAssistant\<rparr>
      StartResolves initialState)) = 0 \<and>
   callStatus (fst (handleCall
      \<lparr>userName = Some ''Ann'', userId = Some ''u1'', interviewId = Some ''i1'', feedbackId = None,
        agentType = Some Feedback, questions = Some [''Why?'']\<rparr>
      \<lparr>NEXT_PUBLIC_VAPI_WORKFLOW_ID = Some ''wf'', interviewer = FlowString []\<rparr>
      (StartThrows OtherValue) (initialState\<lparr>callStatus := FINISHED\<rparr>))) = INACTIVE \<and>
   startCalls (snd (handleCall
      \<lparr>userName = Some ''Ann'', userId = Some ''u1'', interviewId = Some ''i1'', feedbackId = None,
        agentType = Some Feedback, questions = Some [''Why?'']\<rparr>
      \<lparr>NEXT_PUBLIC_VAPI_WORKFLOW_ID = Some ''wf'', interviewer = FlowString []\<rparr>
      (StartThrows OtherValue) (initialState\<lparr>callStatus := FINISHED\<rparr>))) = 0"
proof -
  let ?p1 = "\<lparr>userName = Some ''Ann'', userId = Some ''u1'', interviewId = None, feedbackId = None,
        agentType = Some Generate, questions = None\<rparr>"
  let ?e1 = "\<lparr>NEXT_PUBLIC_VAPI_WORKFLOW_ID = None, interviewer = FlowAssistant\<rparr>"
  let ?p2 = "\<lparr>userName = Some ''Ann'', userId = Some ''u1'', interviewId = Some ''i1'', feedbackId = None,
        agentType = Some Feedback, questions = Some [''Why?'']\<rparr>"
  let ?e2 = "\<lparr>NEXT_PUBLIC_VAPI_WORKFLOW_ID = Some ''wf'', interviewer = FlowString []\<rparr>"
  have h1: "agentType ?p1 = Some Generate \<and> WORKFLOW_ID ?e1 = [] \<or>
            agentType ?p1 \<noteq> Some Generate \<and> \<not> truthyFlow (interviewer ?e1)"
    by (simp add: WORKFLOW_ID_def orEmpty_def)
  have h2: "agentType ?p2 = Some Generate \<and> WORKFLOW_ID ?e2 = [] \<or>
            agentType ?p2 \<noteq> Some Generate \<and> \<not> truthyFlow (interviewer ?e2)"
    by simp
  from handleCall_empty_id [OF h1, of StartResolves initialState]
       handleCall_empty_id [OF h2, of "StartThrows OtherValue" "initialState\<lparr>callStatus := FINISHED\<rparr>"]
  show ?thesis by blast
qed

subsection \<open>Delivery of events\<close>

lemma listenersFor_cases:
  "listenersFor name =
     (if name = ''call-start'' then [OnCallStart]
      else if name = ''call-end'' then [OnCallEnd]
      else if name = ''message'' then [OnMessage]
      else if name = ''speech-start'' then [OnSpeechStart]
      else if name = ''speech-end'' then [OnSpeechEnd]
      else if name = ''error'' then [OnError]
      else [])"
  by (simp add: listenersFor_def vapi_on_def)

lemma emit_cases:
  "emit name p s =
     (if name = ''call-start'' then invoke OnCallStart p s
      else if name = ''call-end'' then invoke OnCallEnd p s
      else if name = ''message'' then invoke OnMessage p s
      else if name = ''speech-start'' then invoke OnSpeechStart p s
      else if name = ''speech-end'' then invoke OnSpeechEnd p s
      else if name = ''error'' then invoke OnError p s
      else (s, []))"
  by (simp add: emit_def listenersFor_cases split: prod.splits)

lemma onMessage_status: "callStatus (fst (onMessage m s)) = callStatus s"
  by (simp add: onMessage_def split: option.splits)

lemma onMessage_effects: "snd (onMessage m s) = []"
  by (simp add: onMessage_def split: option.splits)

lemma invoke_status:
  "callStatus (fst (invoke l p s)) =
     (case l of OnCallStart \<Rightarrow> ACTIVE | OnCallEnd \<Rightarrow> FINISHED | OnError \<Rightarrow> INACTIVE
      | _ \<Rightarrow> callStatus s)"
  by (cases l; cases p)
     (simp_all add: onCallStart_def onCallEnd_def onMessage_status onSpeechStart_def
        onSpeechEnd_def onError_def)

lemma feedbackCalls_append: "feedbackCalls (xs @ ys) = feedbackCalls xs + feedbackCalls ys"
  by (simp add: feedbackCalls_def)

lemma readBody_no_calls:
  "filter isCreateFeedback (readBody a b c e) = [] \<and> filter isVapiStart (readBody a b c e) = []"
  by (induction a b c e rule: readBody.induct) simp_all

lemma invoke_no_feedback: "feedbackCalls (snd (invoke l p s)) = 0"
  by (cases l; cases p)
     (simp_all add: feedbackCalls_def onCallStart_def onCallEnd_def onMessage_effects
        onSpeechStart_def onSpeechEnd_def onError_def readBody_no_calls)

lemma deliver_no_feedback: "feedbackCalls (snd (deliver ls p s)) = 0"
proof (induction ls arbitrary: s)
  case Nil
  show ?case by (simp add: feedbackCalls_def)
next
  case (Cons l ls)
  obtain s1 e1 where i: "invoke l p s = (s1, e1)" by (cases "invoke l p s")
  obtain s2 e2 where d: "deliver ls p s1 = (s2, e2)" by (cases "deliver ls p s1")
  have "feedbackCalls e1 = 0" using invoke_no_feedback [of l p s] i by simp
  moreover have "feedbackCalls e2 = 0" using Cons.IH [of s1] d by simp
  ultimately show ?case using i d by (simp add: feedbackCalls_def)
qed

lemma emit_no_feedback: "feedbackCalls (snd (emit name p s)) = 0"
  by (simp add: emit_def deliver_no_feedback)

lemma handleCall_no_feedback: "feedbackCalls (snd (handleCall P E outcome s)) = 0"
  by (simp add: handleCall_def feedbackCalls_def startCall_def readBody_no_calls Let_def
      split: start_outcome.splits)

lemma handleDisconnect_no_feedback: "feedbackCalls (snd (handleDisconnect outcome s)) = 0"
  by (simp add: handleDisconnect_def feedbackCalls_def Let_def split: stop_outcome.splits)

lemma handler_no_feedback: "feedbackCalls (snd (handler w op s)) = 0"
  by (cases op) (simp_all add: emit_no_feedback handleCall_no_feedback handleDisconnect_no_feedback)

lemma handleGenerateFeedback_calls:
  "feedbackCalls (handleGenerateFeedback P cf ms) = 1 \<and>
   hd (handleGenerateFeedback P cf ms) = CreateFeedback (interviewId P) (userId P) ms (feedbackId P)"
  by (simp add: handleGenerateFeedback_def feedbackCalls_def split: feedback_outcome.splits)

lemma step_fst: "fst (step w op s) = fst (handler w op s)"
  by (simp add: step_def split: prod.splits)

lemma step_snd:
  "snd (step w op s) =
     snd (handler w op s) @
     (if callStatus (fst (handler w op s)) = callStatus s \<and> messages (fst (handler w op s)) = messages s
      then [] else finishedEffect (agentProps w) (feedbackAction w) (fst (handler w op s)))"
  by (simp add: step_def split: prod.splits)

subsection \<open>Registered events\<close>

text \<open>
  Claim C5 says that handlers are registered for exactly five event names. The
  registrations of the code name another number of events.
\<close>

theorem five_events_refuted: "card (set (map fst vapi_on)) \<noteq> 5"
  by (simp add: vapi_on_def)

text \<open>
  Claim C5, amended. Handlers are registered for exactly six event names:
  \<^verbatim>\<open>call-start\<close>, \<^verbatim>\<open>call-end\<close>, \<^verbatim>\<open>message\<close>, \<^verbatim>\<open>speech-start\<close>,
  \<^verbatim>\<open>speech-end\<close> and \<^verbatim>\<open>error\<close>, one handler each; the clean-up removes the same
  six; and an event of any other name leaves the component as it is.
\<close>

theorem six_events_registered:
  "set (map fst vapi_on) =
     {''call-start'', ''call-end'', ''message'', ''speech-start'', ''speech-end'', ''error''} \<and>
   card (set (map fst vapi_on)) = 6 \<and>
   distinct (map fst vapi_on) \<and>
   vapi_off = vapi_on \<and>
   (name \<notin> set (map fst vapi_on) \<longrightarrow> emit name p s = (s, []))"
proof -
  have names: "map fst vapi_on =
      [''call-start'', ''call-end'', ''message'', ''speech-start'', ''speech-end'', ''error'']"
    by (simp add: vapi_on_def)
  have d: "distinct (map fst vapi_on)"
    unfolding names by simp
  have c: "card (set (map fst vapi_on)) = 6"
    using distinct_card [OF d] by (simp add: vapi_on_def)
  have e: "name \<notin> set (map fst vapi_on) \<longrightarrow> emit name p s = (s, [])"
    unfolding names by (simp add: emit_cases)
  have o: "vapi_off = vapi_on"
    by (simp add: vapi_off_def vapi_on_def)
  have st: "set (map fst vapi_on) =
     {''call-start'', ''call-end'', ''message'', ''speech-start'', ''speech-end'', ''error''}"
    unfolding names by simp
  from st c d o e show ?thesis by blast
qed

text \<open>
  The theorem of C5 at an event name that has no handler.
\<close>

theorem six_events_registered_witness:
  "''volume-level'' \<notin> set (map fst vapi_on) \<and>
   emit ''volume-level'' NoPayload initialState = (initialState, []) \<and>
   card (set (map fst vapi_on)) = 6"
proof -
  have n: "''volume-level'' \<notin> set (map fst vapi_on)"
    by (simp add: vapi_on_def)
  with six_events_registered [of "''volume-level''" NoPayload initialState]
  show ?thesis by blast
qed

subsection \<open>The dispatch at the end of a call\<close>

text \<open>
  The two branches of the effect under the status \<open>FINISHED\<close>.
\<close>

lemma finishedEffect_branches:
  assumes "callStatus s = FINISHED"
  shows "(agentType P = Some Generate \<longrightarrow> finishedEffect P cf s = [RouterPush ''/'']) \<and>
         (agentType P \<noteq> Some Generate \<longrightarrow>
            finishedEffect P cf s = handleGenerateFeedback P cf (messages s) \<and>
            hd (finishedEffect P cf s) =
              CreateFeedback (interviewId P) (userId P) (messages s) (feedbackId P)) \<and>
         (hd (finishedEffect P cf s) = RouterPush ''/'') = (agentType P = Some Generate) \<and>
         (feedbackCalls (finishedEffect P cf s) = 0) = (agentType P = Some Generate)"
proof (cases "agentType P = Some Generate")
  case True
  with assms show ?thesis by (simp add: finishedEffect_def feedbackCalls_def)
next
  case False
  with assms have "finishedEffect P cf s = handleGenerateFeedback P cf (messages s)"
    by (simp add: finishedEffect_def)
  with False handleGenerateFeedback_calls [of P cf "messages s"] show ?thesis by simp
qed

subsection \<open>The call status\<close>

lemma emit_status:
  "callStatus (fst (emit name p s)) =
     (if name = ''call-start'' then ACTIVE
      else if name = ''call-end'' then FINISHED
      else if name = ''error'' then INACTIVE
      else callStatus s)"
  by (simp add: emit_cases invoke_status del: invoke.simps)

lemma handleCall_status:
  "callStatus (fst (handleCall P E outcome s)) =
     (if truthyFlow (flowId P E) \<and> outcome = StartResolves then CONNECTING else INACTIVE)"
  by (simp add: handleCall_def Let_def split: start_outcome.splits)

lemma handleDisconnect_status:
  "callStatus (fst (handleDisconnect outcome s)) =
     (if outcome = StopReturns then FINISHED else INACTIVE)"
  by (simp add: handleDisconnect_def Let_def split: stop_outcome.splits)

text \<open>
  Claim C2, amended. The status changes only in response to the SDK's events
  \<^verbatim>\<open>call-start\<close> (to \<open>ACTIVE\<close>), \<^verbatim>\<open>call-end\<close> (to \<open>FINISHED\<close>) and
  \<^verbatim>\<open>error\<close> (to \<open>INACTIVE\<close>), or to a click on one of the component's two buttons:
  \<^verbatim>\<open>handleCall\<close> takes it to \<open>CONNECTING\<close> when the chosen id is not empty and the
  start of the call resolves, and to \<open>INACTIVE\<close> when the id is empty or the start
  throws; \<^verbatim>\<open>handleDisconnect\<close> takes it to \<open>FINISHED\<close> when stopping returns, and to
  \<open>INACTIVE\<close> when stopping throws. No other event and no run of the effect changes it.
\<close>

theorem status_change_origin:
  assumes "callStatus (fst (step w op s)) \<noteq> callStatus s"
  shows "(\<exists>p. op = SdkEvent ''call-start'' p) \<and> callStatus (fst (step w op s)) = ACTIVE \<or>
         (\<exists>p. op = SdkEvent ''call-end'' p) \<and> callStatus (fst (step w op s)) = FINISHED \<or>
         (\<exists>p. op = SdkEvent ''error'' p) \<and> callStatus (fst (step w op s)) = INACTIVE \<or>
         (\<exists>outcome. op = ClickCall outcome \<and>
            callStatus (fst (step w op s)) =
              (if truthyFlow (flowId (agentProps w) (buildEnv w)) \<and> outcome = StartResolves
               then CONNECTING else INACTIVE)) \<or>
         (\<exists>outcome. op = ClickDisconnect outcome \<and>
            callStatus (fst (step w op s)) =
              (if outcome = StopReturns then FINISHED else INACTIVE))"
proof (cases op)
  case (SdkEvent name p)
  with assms have "callStatus (fst (emit name p s)) \<noteq> callStatus s"
    by (simp add: step_fst)
  then have "name = ''call-start'' \<or> name = ''call-end'' \<or> name = ''error''"
    by (simp add: emit_status split: if_splits)
  then show ?thesis
    using SdkEvent by (auto simp: step_fst emit_status)
next
  case (ClickCall outcome)
  then show ?thesis by (simp add: step_fst handleCall_status)
next
  case (ClickDisconnect outcome)
  then show ?thesis by (simp add: step_fst handleDisconnect_status)
qed

text \<open>
  The theorem of C2 at the event \<^verbatim>\<open>call-end\<close> in the initial state, at a call whose
  start throws, and at a disconnect whose stop throws.
\<close>

theorem status_change_origin_witness:
  "callStatus (fst (step (sampleWorld (Some Feedback)) (SdkEvent ''call-end'' NoPayload) initialState)) \<noteq>
     callStatus initialState \<and>
   callStatus (fst (step (sampleWorld (Some Feedback)) (SdkEvent ''call-end'' NoPayload) initialState)) =
     FINISHED \<and>
   callStatus (fst (step (sampleWorld (Some Feedback)) (ClickCall (StartThrows OtherValue))
     (initialState\<lparr>callStatus := FINISHED\<rparr>))) \<noteq> callStatus (initialState\<lparr>callStatus := FINISHED\<rparr>) \<and>
   callStatus (fst (step (sampleWorld (Some Feedback)) (ClickCall (StartThrows OtherValue))
     (initialState\<lparr>callStatus := FINISHED\<rparr>))) = INACTIVE \<and>
   callStatus (fst (step (sampleWorld (Some Feedback)) (ClickDisconnect StopThrows)
     (initialState\<lparr>callStatus := ACTIVE\<rparr>))) \<noteq> callStatus (initialState\<lparr>callStatus := ACTIVE\<rparr>) \<and>
   callStatus (fst (step (sampleWorld (Some Feedback)) (ClickDisconnect StopThrows)
     (initialState\<lparr>callStatus := ACTIVE\<rparr>))) = INACTIVE"
proof -
  let ?w = "sampleWorld (Some Feedback)"
  have h1: "callStatus (fst (step ?w (SdkEvent ''call-end'' NoPayload) initialState)) \<noteq>
     callStatus initialState"
    by (simp add: step_fst emit_status initialState_def)
  have h2: "callStatus (fst (step ?w (ClickCall (StartThrows OtherValue))
     (initialState\<lparr>callStatus := FINISHED\<rparr>))) \<noteq> callStatus (initialState\<lparr>callStatus := FINISHED\<rparr>)"
    by (simp add: step_fst handleCall_status)
  have h3: "callStatus (fst (step ?w (ClickDisconnect StopThrows)
     (initialState\<lparr>callStatus := ACTIVE\<rparr>))) \<noteq> callStatus (initialState\<lparr>callStatus := ACTIVE\<rparr>)"
    by (simp add: step_fst handleDisconnect_status)
  from status_change_origin [OF h1] have c1:
    "callStatus (fst (step ?w (SdkEvent ''call-end'' NoPayload) initialState)) = FINISHED"
    by simp
  from status_change_origin [OF h2] have c2:
    "callStatus (fst (step ?w (ClickCall (StartThrows OtherValue))
       (initialState\<lparr>callStatus := FINISHED\<rparr>))) = INACTIVE"
    by simp
  from status_change_origin [OF h3] have c3:
    "callStatus (fst (step ?w (ClickDisconnect StopThrows)
       (initialState\<lparr>callStatus := ACTIVE\<rparr>))) = INACTIVE"
    by simp
  from h1 c1 h2 c2 h3 c3 show ?thesis by blast
qed

text \<open>
  Claim C2 says that the status changes only in response to an event emitted by the SDK.
  A click on the call button in the initial state changes it to \<open>CONNECTING\<close>, and a
  click on the end button during a call changes it to \<open>FINISHED\<close>; both buttons are
  rendered in these states.
\<close>

theorem button_changes_status:
  "callStatus initialState = INACTIVE \<and>
   offered (ClickCall StartResolves) initialState \<and>
   callStatus (fst (step (sampleWorld (Some Feedback)) (ClickCall StartResolves) initialState)) =
     CONNECTING \<and>
   offered (ClickDisconnect StopReturns) (initialState\<lparr>callStatus := ACTIVE\<rparr>) \<and>
   callStatus (fst (step (sampleWorld (Some Feedback)) (ClickDisconnect StopReturns)
     (initialState\<lparr>callStatus := ACTIVE\<rparr>))) = FINISHED"
  by (simp add: step_fst handleCall_status handleDisconnect_status initialState_def
      sampleWorld_def sampleProps_def sampleEnv_def flowId_def)

text \<open>
  Claim C7. The status starts as \<open>INACTIVE\<close>, and after every operation (an event
  of the SDK, \<^verbatim>\<open>handleCall\<close>, \<^verbatim>\<open>handleDisconnect\<close>) and after every session from the
  initial state it is one of \<open>INACTIVE\<close>, \<open>CONNECTING\<close>, \<open>ACTIVE\<close> and
  \<open>FINISHED\<close>.
\<close>

theorem callStatus_enumeration:
  "callStatus initialState = INACTIVE \<and>
   callStatus (fst (step w op s)) \<in> {INACTIVE, CONNECTING, ACTIVE, FINISHED} \<and>
   callStatus (fst (run w ops (initialState, []))) \<in> {INACTIVE, CONNECTING, ACTIVE, FINISHED}"
proof -
  have "c \<in> {INACTIVE, CONNECTING, ACTIVE, FINISHED}" for c
    by (cases c) simp_all
  then show ?thesis by (simp add: initialState_def)
qed

subsection \<open>Feedback generation\<close>

text \<open>
  Claim C3, amended. Whenever an operation takes the status to \<open>FINISHED\<close>, the
  component calls \<^verbatim>\<open>createFeedback\<close> exactly once, with the buffered transcript, if its
  mode is not \<open>Generate\<close>, and does not call it in mode \<open>Generate\<close>.
\<close>

theorem feedback_on_finish:
  assumes "callStatus s \<noteq> FINISHED" and "callStatus (fst (step w op s)) = FINISHED"
  shows "feedbackCalls (snd (step w op s)) =
           (if agentType (agentProps w) = Some Generate then 0 else 1) \<and>
         (agentType (agentProps w) \<noteq> Some Generate \<longrightarrow>
            CreateFeedback (interviewId (agentProps w)) (userId (agentProps w))
              (messages (fst (step w op s))) (feedbackId (agentProps w)) \<in> set (snd (step w op s)))"
proof -
  let ?s' = "fst (handler w op s)"
  let ?fin = "finishedEffect (agentProps w) (feedbackAction w) ?s'"
  from assms have fin: "callStatus ?s' = FINISHED" and ch: "callStatus ?s' \<noteq> callStatus s"
    by (simp_all add: step_fst)
  from ch have eff: "snd (step w op s) = snd (handler w op s) @ ?fin"
    by (simp add: step_snd)
  have n: "feedbackCalls (snd (step w op s)) = feedbackCalls ?fin"
    by (simp add: eff feedbackCalls_append handler_no_feedback)
  show ?thesis
  proof (cases "agentType (agentProps w) = Some Generate")
    case True
    with fin have "?fin = [RouterPush ''/'']" by (simp add: finishedEffect_def)
    with n True show ?thesis by (simp add: feedbackCalls_def)
  next
    case False
    with fin have f: "?fin = handleGenerateFeedback (agentProps w) (feedbackAction w) (messages ?s')"
      by (simp add: finishedEffect_def)
    have "feedbackCalls ?fin = 1"
      by (simp add: f handleGenerateFeedback_calls)
    moreover have "CreateFeedback (interviewId (agentProps w)) (userId (agentProps w))
              (messages ?s') (feedbackId (agentProps w)) \<in> set ?fin"
      by (simp add: f handleGenerateFeedback_def)
    ultimately show ?thesis using n False eff by (simp add: step_fst)
  qed
qed

text \<open>
  The theorem of C3 at the end of a call, in mode \<open>Feedback\<close> and in mode
  \<open>Generate\<close>.
\<close>

theorem feedback_on_finish_witness:
  "callStatus (initialState\<lparr>callStatus := ACTIVE\<rparr>) \<noteq> FINISHED \<and>
   callStatus (fst (step (sampleWorld (Some Feedback)) (SdkEvent ''call-end'' NoPayload)
     (initialState\<lparr>callStatus := ACTIVE\<rparr>))) = FINISHED \<and>
   feedbackCalls (snd (step (sampleWorld (Some Feedback)) (SdkEvent ''call-end'' NoPayload)
     (initialState\<lparr>callStatus := ACTIVE\<rparr>))) = 1 \<and>
   feedbackCalls (snd (step (sampleWorld (Some Generate)) (SdkEvent ''call-end'' NoPayload)
     (initialState\<lparr>callStatus := ACTIVE\<rparr>))) = 0"
proof -
  let ?s = "initialState\<lparr>callStatus := ACTIVE\<rparr>"
  have a: "callStatus ?s \<noteq> FINISHED" by simp
  have b: "callStatus (fst (step w (SdkEvent ''call-end'' NoPayload) ?s)) = FINISHED" for w
    by (simp add: step_fst emit_status)
  have f: "agentType (agentProps (sampleWorld (Some Feedback))) \<noteq> Some Generate"
    and g: "agentType (agentProps (sampleWorld (Some Generate))) = Some Generate"
    by (simp_all add: sampleWorld_def sampleProps_def)
  from feedback_on_finish [OF a b, of "sampleWorld (Some Feedback)"] f
  have one: "feedbackCalls (snd (step (sampleWorld (Some Feedback)) (SdkEvent ''call-end'' NoPayload) ?s)) = 1"
    by simp
  from feedback_on_finish [OF a b, of "sampleWorld (Some Generate)"] g
  have none: "feedbackCalls (snd (step (sampleWorld (Some Generate)) (SdkEvent ''call-end'' NoPayload) ?s)) = 0"
    by simp
  from a b one none show ?thesis by blast
qed

lemmas session_simps =
  step_def emit_cases onCallStart_def onCallEnd_def onMessage_def onSpeechStart_def
  onSpeechEnd_def onError_def handleCall_def handleDisconnect_def finishedEffect_def
  handleGenerateFeedback_def startCall_def flowId_def WORKFLOW_ID_def orEmpty_def
  formattedQuestions_def sampleWorld_def sampleProps_def sampleEnv_def rejecting_def
  initialState_def feedbackCalls_def isFinalTranscript_def finalTranscript_def
  appendUnique_def lastTrimmed_def truthyStr_def trim_def isWhiteSpace_def

text \<open>
  Claim C3 says that every session that reaches \<open>FINISHED\<close> calls the feedback
  action exactly once, whatever the mode. In mode \<open>Generate\<close> the session of a click
  on the call button, \<^verbatim>\<open>call-start\<close> and \<^verbatim>\<open>call-end\<close> reaches \<open>FINISHED\<close>
  without a call of it.
\<close>

theorem generate_session_no_feedback:
  "feasible (sampleWorld (Some Generate))
     [ClickCall StartResolves, SdkEvent ''call-start'' NoPayload, SdkEvent ''call-end'' NoPayload]
     initialState \<and>
   callStatus (fst (run (sampleWorld (Some Generate))
     [ClickCall StartResolves, SdkEvent ''call-start'' NoPayload, SdkEvent ''call-end'' NoPayload]
     (initialState, []))) = FINISHED \<and>
   feedbackCalls (snd (run (sampleWorld (Some Generate))
     [ClickCall StartResolves, SdkEvent ''call-start'' NoPayload, SdkEvent ''call-end'' NoPayload]
     (initialState, []))) = 0"
  by (simp add: session_simps)

text \<open>
  The effect depends on the buffer as well: a final transcript that arrives after the end
  of the call makes it run again, with a second call of the feedback action.
\<close>

lemma late_transcript_second_feedback_call:
  "feasible (sampleWorld (Some Feedback))
     [ClickCall StartResolves, SdkEvent ''call-start'' NoPayload, SdkEvent ''call-end'' NoPayload,
      SdkEvent ''message'' (MessagePayload (finalTranscript ''bye''))]
     initialState \<and>
   feedbackCalls (snd (run (sampleWorld (Some Feedback))
     [ClickCall StartResolves, SdkEvent ''call-start'' NoPayload, SdkEvent ''call-end'' NoPayload,
      SdkEvent ''message'' (MessagePayload (finalTranscript ''bye''))]
     (initialState, []))) = 2"
  by (simp add: session_simps)

text \<open>
  Each of the four values is the status after some session.
\<close>

lemma every_status_reached:
  "callStatus (fst (run (sampleWorld (Some Feedback)) [] (initialState, []))) = INACTIVE \<and>
   callStatus (fst (run (sampleWorld (Some Feedback)) [ClickCall StartResolves]
     (initialState, []))) = CONNECTING \<and>
   callStatus (fst (run (sampleWorld (Some Feedback))
     [ClickCall StartResolves, SdkEvent ''call-start'' NoPayload] (initialState, []))) = ACTIVE \<and>
   callStatus (fst (run (sampleWorld (Some Feedback))
     [ClickCall StartResolves, SdkEvent ''call-start'' NoPayload, ClickDisconnect StopReturns]
     (initialState, []))) = FINISHED"
  by (simp add: session_simps)

subsection \<open>The dispatch in a session\<close>

lemma run_snoc:
  "run w (ops @ [op]) acc =
     (case run w ops acc of (s, log) \<Rightarrow> (case step w op s of (s', es) \<Rightarrow> (s', log @ es)))"
proof (induction ops arbitrary: acc)
  case Nil
  show ?case by (cases acc) (simp split: prod.splits)
next
  case (Cons a ops)
  show ?case by (cases acc) (simp add: Cons.IH split: prod.splits)
qed

lemma run_snoc_fst:
  "fst (run w (ops @ [op]) acc) = fst (step w op (fst (run w ops acc)))"
  by (simp add: run_snoc split: prod.splits)

lemma readBody_no_push: "filter isRouterPush (readBody a b c e) = []"
  by (induction a b c e rule: readBody.induct) simp_all

lemma invoke_no_push: "filter isRouterPush (snd (invoke l p s)) = []"
  by (cases l; cases p)
     (simp_all add: onCallStart_def onCallEnd_def onMessage_effects
        onSpeechStart_def onSpeechEnd_def onError_def readBody_no_push)

lemma deliver_no_push: "filter isRouterPush (snd (deliver ls p s)) = []"
proof (induction ls arbitrary: s)
  case Nil
  show ?case by simp
next
  case (Cons l ls)
  obtain s1 e1 where i: "invoke l p s = (s1, e1)" by (cases "invoke l p s")
  obtain s2 e2 where d: "deliver ls p s1 = (s2, e2)" by (cases "deliver ls p s1")
  have "filter isRouterPush e1 = []" using invoke_no_push [of l p s] i by simp
  moreover have "filter isRouterPush e2 = []" using Cons.IH [of s1] d by simp
  ultimately show ?case using i d by simp
qed

lemma handler_no_push: "filter isRouterPush (snd (handler w op s)) = []"
proof (cases op)
  case (SdkEvent name p)
  then show ?thesis by (simp add: emit_def deliver_no_push)
next
  case (ClickCall outcome)
  then show ?thesis
    by (simp add: handleCall_def startCall_def readBody_no_push Let_def split: start_outcome.splits)
next
  case (ClickDisconnect outcome)
  then show ?thesis
    by (simp add: handleDisconnect_def Let_def split: stop_outcome.splits)
qed

text \<open>
  Claim C4. Take any session, from any starting point, whose last operation brings the
  status to \<open>FINISHED\<close>. The component then adds to what it has done so far the
  effects of that operation's handler, which neither navigate nor call the feedback
  action, and after them the dispatch: in mode \<open>Generate\<close> the navigation to the home
  route and nothing else; in every other mode (also when none is given)
  \<^verbatim>\<open>handleGenerateFeedback\<close> on the buffered messages, whose first act is the call of
  \<^verbatim>\<open>createFeedback\<close> with them. The dispatch starts with the navigation exactly in mode
  \<open>Generate\<close>, and the feedback action stays uncalled exactly in that mode, so one of
  the two is chosen and never both.
\<close>

theorem finished_dispatch:
  assumes "run w ops acc = (s, log)"
    and "callStatus s \<noteq> FINISHED"
    and "callStatus (fst (run w (ops @ [op]) acc)) = FINISHED"
  shows "fst (run w (ops @ [op]) acc) = fst (handler w op s) \<and>
         snd (run w (ops @ [op]) acc) =
           log @ snd (handler w op s) @
           finishedEffect (agentProps w) (feedbackAction w) (fst (handler w op s)) \<and>
         filter isRouterPush (snd (handler w op s)) = [] \<and>
         filter isCreateFeedback (snd (handler w op s)) = [] \<and>
         (agentType (agentProps w) = Some Generate \<longrightarrow>
            finishedEffect (agentProps w) (feedbackAction w) (fst (handler w op s)) =
              [RouterPush ''/'']) \<and>
         (agentType (agentProps w) \<noteq> Some Generate \<longrightarrow>
            finishedEffect (agentProps w) (feedbackAction w) (fst (handler w op s)) =
              handleGenerateFeedback (agentProps w) (feedbackAction w)
                (messages (fst (handler w op s))) \<and>
            hd (finishedEffect (agentProps w) (feedbackAction w) (fst (handler w op s))) =
              CreateFeedback (interviewId (agentProps w)) (userId (agentProps w))
                (messages (fst (run w (ops @ [op]) acc))) (feedbackId (agentProps w))) \<and>
         (hd (finishedEffect (agentProps w) (feedbackAction w) (fst (handler w op s))) =
            RouterPush ''/'') = (agentType (agentProps w) = Some Generate) \<and>
         (feedbackCalls (snd (handler w op s) @
            finishedEffect (agentProps w) (feedbackAction w) (fst (handler w op s))) = 0) =
           (agentType (agentProps w) = Some Generate)"
proof -
  let ?s' = "fst (handler w op s)"
  let ?own = "snd (handler w op s)"
  let ?fin = "finishedEffect (agentProps w) (feedbackAction w) ?s'"
  have r: "run w (ops @ [op]) acc = (fst (step w op s), log @ snd (step w op s))"
    using assms(1) by (simp add: run_snoc split: prod.splits)
  then have st: "fst (run w (ops @ [op]) acc) = ?s'"
    by (simp add: step_fst)
  with assms(3) have fin: "callStatus ?s' = FINISHED" by simp
  with assms(2) have "callStatus ?s' \<noteq> callStatus s" by simp
  then have "snd (step w op s) = ?own @ ?fin" by (simp add: step_snd)
  with r have lg: "snd (run w (ops @ [op]) acc) = log @ ?own @ ?fin" by simp
  have nf: "filter isCreateFeedback ?own = []"
    using handler_no_feedback [of w op s] by (simp add: feedbackCalls_def)
  have cnt: "feedbackCalls (?own @ ?fin) = feedbackCalls ?fin"
    by (simp add: feedbackCalls_append handler_no_feedback)
  note br = finishedEffect_branches [OF fin, of "agentProps w" "feedbackAction w"]
  from br have g: "agentType (agentProps w) = Some Generate \<longrightarrow> ?fin = [RouterPush ''/'']"
    by blast
  from br have f: "agentType (agentProps w) \<noteq> Some Generate \<longrightarrow>
      ?fin = handleGenerateFeedback (agentProps w) (feedbackAction w) (messages ?s') \<and>
      hd ?fin = CreateFeedback (interviewId (agentProps w)) (userId (agentProps w))
                (messages (fst (run w (ops @ [op]) acc))) (feedbackId (agentProps w))"
    unfolding st by blast
  from br have h: "(hd ?fin = RouterPush ''/'') = (agentType (agentProps w) = Some Generate)"
    by blast
  from br have c: "(feedbackCalls (?own @ ?fin) = 0) = (agentType (agentProps w) = Some Generate)"
    unfolding cnt by blast
  from st lg handler_no_push [of w op s] nf g f h c show ?thesis by blast
qed

text \<open>
  The theorem of C4 at the end of a call in mode \<open>Generate\<close>, and at the end of a call
  with one transcript line in mode \<open>Feedback\<close>.
\<close>

theorem finished_dispatch_witness:
  "snd (run (sampleWorld (Some Generate))
     ([ClickCall StartResolves, SdkEvent ''call-start'' NoPayload] @
      [SdkEvent ''call-end'' NoPayload]) (initialState, [])) =
     [VapiStart (FlowString ''wf-1'') [(''username'', ''Ann''), (''userid'', ''u1'')],
      RouterPush ''/''] \<and>
   snd (run (sampleWorld (Some Feedback))
     ([ClickCall StartResolves, SdkEvent ''call-start'' NoPayload,
       SdkEvent ''message'' (MessagePayload (finalTranscript '' hello ''))] @
      [SdkEvent ''call-end'' NoPayload]) (initialState, [])) =
     [VapiStart FlowAssistant [(''questions'', ''- Why?'')],
      CreateFeedback (Some ''i1'') (Some ''u1'') [\<lparr>role = Assistant, content = ''hello''\<rparr>] None,
      ConsoleError ''createFeedback error:'', RouterPush ''/'']"
proof -
  let ?g = "sampleWorld (Some Generate)" and ?f = "sampleWorld (Some Feedback)"
  let ?ops = "[ClickCall StartResolves, SdkEvent ''call-start'' NoPayload]"
  let ?ops' = "[ClickCall StartResolves, SdkEvent ''call-start'' NoPayload,
       SdkEvent ''message'' (MessagePayload (finalTranscript '' hello ''))]"
  let ?op = "SdkEvent ''call-end'' NoPayload"
  let ?s = "initialState\<lparr>callStatus := ACTIVE\<rparr>"
  let ?s' = "initialState\<lparr>callStatus := ACTIVE,
               messages := [\<lparr>role = Assistant, content = ''hello''\<rparr>]\<rparr>"
  let ?lg = "[VapiStart (FlowString ''wf-1'') [(''username'', ''Ann''), (''userid'', ''u1'')]]"
  let ?lf = "[VapiStart FlowAssistant [(''questions'', ''- Why?'')]]"
  have r1: "run ?g ?ops (initialState, []) = (?s, ?lg)"
    by (simp add: session_simps)
  have r2: "run ?f ?ops' (initialState, []) = (?s', ?lf)"
    by (simp add: session_simps)
  have n1: "callStatus ?s \<noteq> FINISHED" and n2: "callStatus ?s' \<noteq> FINISHED"
    by simp_all
  have f1: "callStatus (fst (run ?g (?ops @ [?op]) (initialState, []))) = FINISHED"
    unfolding run_snoc_fst r1 by (simp add: step_fst emit_status)
  have f2: "callStatus (fst (run ?f (?ops' @ [?op]) (initialState, []))) = FINISHED"
    unfolding run_snoc_fst r2 by (simp add: step_fst emit_status)
  from finished_dispatch [OF r1 n1 f1]
  have "snd (run ?g (?ops @ [?op]) (initialState, [])) =
      ?lg @ snd (handler ?g ?op ?s) @
      finishedEffect (agentProps ?g) (feedbackAction ?g) (fst (handler ?g ?op ?s))"
    by blast
  then have a: "snd (run ?g (?ops @ [?op]) (initialState, [])) = ?lg @ [RouterPush ''/'']"
    by (simp add: emit_cases onCallEnd_def finishedEffect_def sampleWorld_def sampleProps_def)
  from finished_dispatch [OF r2 n2 f2]
  have "snd (run ?f (?ops' @ [?op]) (initialState, [])) =
      ?lf @ snd (handler ?f ?op ?s') @
      finishedEffect (agentProps ?f) (feedbackAction ?f) (fst (handler ?f ?op ?s'))"
    by blast
  then have b: "snd (run ?f (?ops' @ [?op]) (initialState, [])) =
      ?lf @ [CreateFeedback (Some ''i1'') (Some ''u1'') [\<lparr>role = Assistant, content = ''hello''\<rparr>] None,
             ConsoleError ''createFeedback error:'', RouterPush ''/'']"
    by (simp add: emit_cases onCallEnd_def finishedEffect_def handleGenerateFeedback_def
        sampleWorld_def sampleProps_def rejecting_def initialState_def)
  from a b show ?thesis by simp
qed

end
